theory Spec2Isabelle
  imports Main "HOL-Library.Char_ord" "HOL-Library.List_Lexorder" "HOL-Library.Product_Lexorder"
begin

section \<open>Python strings\<close>

text \<open>
  A Python \<open>str\<close> is modelled as a \<open>string\<close>: a list of characters, each character standing
  for one code point below 256. The operations below are the \<open>str\<close> methods the program
  calls, with the arguments it passes.
\<close>

definition startswith :: "string \<Rightarrow> string \<Rightarrow> bool" where
  "startswith s p = (take (length p) s = p)"

definition endswith :: "string \<Rightarrow> string \<Rightarrow> bool" where
  "endswith s p = (length p \<le> length s \<and> drop (length s - length p) s = p)"

text \<open>\<open>s.split(sep)\<close> for a one-character separator: never empty, \<open>''''.split('/') = ['''']\<close>.\<close>

fun split :: "string \<Rightarrow> char \<Rightarrow> string list" where
  "split [] sep = [[]]"
| "split (c # cs) sep =
     (if c = sep then [] # split cs sep
      else (case split cs sep of [] \<Rightarrow> [[c]] | part # parts \<Rightarrow> (c # part) # parts))"

text \<open>\<open>str.isspace\<close> on the code points below 256, and \<open>str.strip()\<close>.\<close>

definition isspace :: "char \<Rightarrow> bool" where
  "isspace c = (let n = (of_char c :: nat) in
     (9 \<le> n \<and> n \<le> 13) \<or> (28 \<le> n \<and> n \<le> 32) \<or> n = 133 \<or> n = 160)"

definition strip :: "string \<Rightarrow> string" where
  "strip s = rev (dropWhile isspace (rev (dropWhile isspace s)))"

text \<open>\<open>str.lower()\<close> on the code points below 256: ASCII and Latin-1 capital letters.\<close>

definition lower_char :: "char \<Rightarrow> char" where
  "lower_char c = (let n = (of_char c :: nat) in
     if (65 \<le> n \<and> n \<le> 90) \<or> (192 \<le> n \<and> n \<le> 222 \<and> n \<noteq> 215)
     then char_of (n + 32) else c)"

definition lower :: "string \<Rightarrow> string" where
  "lower s = map lower_char s"

text \<open>\<open>sep.join(parts)\<close>.\<close>

fun join :: "string \<Rightarrow> string list \<Rightarrow> string" where
  "join sep [] = []"
| "join sep [p] = p"
| "join sep (p # ps) = p @ sep @ join sep ps"


section \<open>The library function \<open>fnmatch.fnmatch\<close>\<close>

text \<open>
  \<open>matches_pattern\<close> delegates every comparison to the standard library's
  \<open>fnmatch.fnmatch(name, pat)\<close>. The model follows \<open>fnmatch.translate\<close> of CPython on a
  POSIX system (where \<open>os.path.normcase\<close> is the identity, so matching is case-sensitive):
  the pattern is read left to right into a sequence of items, and the whole name must match
  that sequence. \<open>*\<close> matches any run of characters, \<open>/\<close> included; \<open>?\<close> matches one
  character; \<open>[seq]\<close> and \<open>[!seq]\<close> match one character in, or not in, the set; a \<open>[\<close>
  with no closing \<open>]\<close> is an ordinary character.
\<close>

datatype glob_item =
    Star
  | Any_Char
  | Never
  | Literal char
  | Char_Set bool "string list"

text \<open>\<open>s.find(c, k)\<close>: the index of the first \<open>c\<close> at a position \<open>\<ge> k\<close>.\<close>

fun find_from :: "char \<Rightarrow> nat \<Rightarrow> string \<Rightarrow> nat option" where
  "find_from c k [] = None"
| "find_from c k (x # xs) =
     (if k = 0 then (if x = c then Some 0 else map_option Suc (find_from c 0 xs))
      else map_option Suc (find_from c (k - 1) xs))"

text \<open>
  The scan for the closing bracket, on the text after \<open>[\<close>: an optional \<open>!\<close>, then an
  optional \<open>]\<close> (taken as a member of the set), then everything up to the next \<open>]\<close>.
  The result is the text between the brackets and the text after the closing one.
\<close>

definition bracket_end :: "string \<Rightarrow> (string \<times> string) option" where
  "bracket_end pat =
     (let (a, r1) = (if startswith pat ''!'' then (''!'', tl pat) else ([], pat));
          (b, r2) = (if startswith r1 '']'' then ('']'', tl r1) else ([], r1));
          body = takeWhile (\<lambda>c. c \<noteq> CHR '']'') r2;
          after = dropWhile (\<lambda>c. c \<noteq> CHR '']'') r2
      in if after = [] then None else Some (a @ b @ body, tl after))"

text \<open>
  The text between the brackets is cut at the hyphens that stand for ranges: the first is
  looked for from position \<open>k\<close> on, each later one two characters after the start of its
  chunk. A hyphen in last position is an ordinary character.
\<close>

function range_chunks :: "nat \<Rightarrow> string \<Rightarrow> string list" where
  "range_chunks k s =
     (case find_from (CHR ''-'') k s of
        None \<Rightarrow> [s]
      | Some h \<Rightarrow> if Suc h = length s then [s]
                  else take h s # range_chunks 2 (drop (Suc h) s))"
  by pat_completeness auto

text \<open>A range whose start is above its end is removed, from the right, with both its ends.\<close>

fun drop_empty_ranges :: "string list \<Rightarrow> string list" where
  "drop_empty_ranges [] = []"
| "drop_empty_ranges [c] = [c]"
| "drop_empty_ranges (c # cs) =
     (case drop_empty_ranges cs of
        [] \<Rightarrow> [c]
      | d # ds \<Rightarrow> if c \<noteq> [] \<and> d \<noteq> [] \<and> hd d < last c then (butlast c @ tl d) # ds
                  else c # d # ds)"

definition char_class :: "string \<Rightarrow> glob_item" where
  "char_class stuff =
     (case drop_empty_ranges (range_chunks (if startswith stuff ''!'' then 2 else 1) stuff) of
        [] \<Rightarrow> Never
      | c # cs \<Rightarrow>
          if c = [] \<and> cs = [] then Never
          else if c = ''!'' \<and> cs = [] then Any_Char
          else if startswith c ''!'' then Char_Set True (tl c # cs)
          else Char_Set False (c # cs))"

text \<open>
  Membership in a set given by its chunks: the characters of every chunk, and the range from
  the last character of a chunk to the first of the next one.
\<close>

fun in_chunks :: "char \<Rightarrow> string list \<Rightarrow> bool" where
  "in_chunks x [] = False"
| "in_chunks x [c] = (x \<in> set c)"
| "in_chunks x (c # d # ds) =
     (x \<in> set c \<or> (c \<noteq> [] \<and> d \<noteq> [] \<and> last c \<le> x \<and> x \<le> hd d) \<or> in_chunks x (d # ds))"

text \<open>
  When the first chunk is empty (a \<open>!\<close> alone before a range hyphen), that hyphen opens the
  set and is an ordinary member.
\<close>

definition in_set :: "char \<Rightarrow> string list \<Rightarrow> bool" where
  "in_set x chunks =
     (case chunks of
        [] # d # ds \<Rightarrow> x = CHR ''-'' \<or> in_chunks x (d # ds)
      | _ \<Rightarrow> in_chunks x chunks)"

lemma find_from_less: "find_from c k s = Some h \<Longrightarrow> h < length s"
  by (induction c k s arbitrary: h rule: find_from.induct) (auto split: if_splits)

termination range_chunks
  by (relation "measure (\<lambda>(k, s). length s)") (auto dest: find_from_less)

lemma bracket_end_shorter: "bracket_end pat = Some (stuff, rest) \<Longrightarrow> length rest < Suc (length pat)"
proof -
  have dw: "length (tl (dropWhile P xs)) \<le> length xs" for P and xs :: string
    using length_dropWhile_le [of P xs] by simp
  assume "bracket_end pat = Some (stuff, rest)"
  then obtain r2 where r: "rest = tl (dropWhile (\<lambda>c. c \<noteq> CHR '']'') r2)" and l: "length r2 \<le> length pat"
    by (auto simp: bracket_end_def Let_def split: if_splits)
  from dw [of "\<lambda>c. c \<noteq> CHR '']''" r2] r l show ?thesis by simp
qed

function translate :: "string \<Rightarrow> glob_item list" where
  "translate [] = []"
| "translate (c # pat) =
     (if c = CHR ''*'' then
        (case translate pat of Star # res \<Rightarrow> Star # res | res \<Rightarrow> Star # res)
      else if c = CHR ''?'' then Any_Char # translate pat
      else if c = CHR ''['' then
        (case bracket_end pat of
           None \<Rightarrow> Literal c # translate pat
         | Some (stuff, rest) \<Rightarrow> char_class stuff # translate rest)
      else Literal c # translate pat)"
  by pat_completeness auto
termination
  by (relation "measure length") (auto dest: bracket_end_shorter)

fun item_match :: "glob_item \<Rightarrow> char \<Rightarrow> bool" where
  "item_match Star x = True"
| "item_match Any_Char x = True"
| "item_match Never x = False"
| "item_match (Literal c) x = (x = c)"
| "item_match (Char_Set negated chunks) x = (negated \<noteq> in_set x chunks)"

text \<open>The whole name against the whole item sequence.\<close>

fun glob_match :: "glob_item list \<Rightarrow> string \<Rightarrow> bool" where
  "glob_match [] name = (name = [])"
| "glob_match (Star # res) [] = glob_match res []"
| "glob_match (Star # res) (x # name) = (glob_match res (x # name) \<or> glob_match (Star # res) name)"
| "glob_match (item # res) [] = False"
| "glob_match (item # res) (x # name) = (item_match item x \<and> glob_match res name)"

definition fnmatch :: "string \<Rightarrow> string \<Rightarrow> bool" where
  "fnmatch name pat = glob_match (translate pat) name"


section \<open>\<open>utils.matches_pattern\<close>\<close>

definition matches_pattern :: "string \<Rightarrow> string \<Rightarrow> bool \<Rightarrow> bool" where
  "matches_pattern path_str pattern is_dir =
     (if endswith pattern ''/'' \<and> \<not> is_dir then False
      else
        let pattern = (if endswith pattern ''/'' then butlast pattern else pattern) in
        if startswith pattern ''/'' then fnmatch path_str (drop 1 pattern)
        else if CHR ''/'' \<in> set pattern then fnmatch path_str pattern
        else list_ex (\<lambda>part. fnmatch part pattern) (split path_str (CHR ''/'')))"


section \<open>Paths and the filesystem\<close>

text \<open>
  A \<open>pathlib.Path\<close> is modelled, resolved and absolute, as the list of its components below
  \<open>/\<close>.
\<close>

type_synonym path = "string list"

text \<open>\<open>Path.name\<close>: the last component, empty for \<open>/\<close>.\<close>

definition path_name :: "path \<Rightarrow> string" where
  "path_name p = (if p = [] then [] else last p)"


text \<open>\<open>Path.parents\<close>: the parent, its parent and so on up to \<open>/\<close>.\<close>

fun parents :: "path \<Rightarrow> path list" where
  "parents p = (if p = [] then [] else butlast p # parents (butlast p))"

declare parents.simps [simp del]

text \<open>
  \<open>child.relative_to(root)\<close>: \<open>None\<close> stands for the \<open>ValueError\<close> raised when \<open>root\<close> is not
  a prefix of \<open>child\<close>. \<open>str\<close> of a relative path joins the components, and is \<open>.\<close> when
  there are none.
\<close>

definition relative_to :: "path \<Rightarrow> path \<Rightarrow> path option" where
  "relative_to child root =
     (if take (length root) child = root then Some (drop (length root) child) else None)"

definition str_relative :: "path \<Rightarrow> string" where
  "str_relative p = (if p = [] then ''.'' else join ''/'' p)"


text \<open>
  The errors of the operating system that the program tells apart: \<open>PermissionError\<close>, which
  \<open>build_tree\<close> catches, and every other \<open>OSError\<close>.
\<close>

datatype os_error = PermissionError | OtherOSError

text \<open>
  What the filesystem holds at a path: nothing (\<open>stat\<close> fails with one of the errors that
  \<open>exists()\<close>, \<open>is_dir()\<close> and \<open>is_file()\<close> turn into \<open>False\<close>, as for a missing path or a
  dangling link); something \<open>stat\<close> cannot reach, with the error that \<open>exists()\<close>, \<open>is_dir()\<close>
  and \<open>is_file()\<close> then raise (any other \<open>OSError\<close>, such as the \<open>PermissionError\<close> of an
  unsearchable parent); a regular file, with the result of \<open>stat().st_size\<close> as
  \<open>get_file_size\<close> asks for it (\<open>None\<close> when that raises \<open>OSError\<close>); something that exists and
  is neither a file nor a directory; or a directory, with the result of \<open>iterdir()\<close>: the
  error it raises, or the entries in the order the system delivers them, each with what it
  holds.
\<close>

datatype fs_entry =
    Absent
  | Inaccessible os_error
  | Regular "nat option"
  | Special
  | Directory "os_error + (string \<times> fs_entry) list"

text \<open>\<open>Path.exists()\<close>, \<open>Path.is_dir()\<close> and \<open>Path.is_file()\<close>: \<open>Inl\<close> is the error raised.\<close>

fun entry_exists :: "fs_entry \<Rightarrow> os_error + bool" where
  "entry_exists (Inaccessible err) = Inl err"
| "entry_exists Absent = Inr False"
| "entry_exists e = Inr True"

fun entry_is_dir :: "fs_entry \<Rightarrow> os_error + bool" where
  "entry_is_dir (Inaccessible err) = Inl err"
| "entry_is_dir (Directory listing) = Inr True"
| "entry_is_dir e = Inr False"

fun entry_is_file :: "fs_entry \<Rightarrow> os_error + bool" where
  "entry_is_file (Inaccessible err) = Inl err"
| "entry_is_file (Regular st) = Inr True"
| "entry_is_file e = Inr False"

text \<open>
  The answer of \<open>is_dir()\<close> where it is known not to raise: on a path whose \<open>exists()\<close> has
  returned, and on the entries of a directory once the sort key has been computed for all
  of them.
\<close>

fun stat_is_dir :: "fs_entry \<Rightarrow> bool" where
  "stat_is_dir (Directory listing) = True"
| "stat_is_dir e = False"

text \<open>
  Reading a text file: \<open>open\<close> fails, or the file is opened and iterating it delivers lines
  until it ends or a read or decoding error is raised.
\<close>

datatype read_step = Line string | Read_Error

datatype text_file = Cannot_Open | Opened "read_step list"

text \<open>
  The state of the filesystem the program runs on: how a configured root resolves
  (\<open>Path(s).resolve()\<close>), what each path holds, and what reading the file at a path gives.
\<close>

record filesystem =
  resolve :: "string \<Rightarrow> path"
  entry_at :: "path \<Rightarrow> fs_entry"
  read_text :: "path \<Rightarrow> text_file"


section \<open>\<open>config.Config\<close>\<close>

record config =
  root_path :: string
  max_depth :: "int option"
  show_hidden :: bool
  use_icons :: bool
  show_size :: bool
  color_output :: bool
  respect_gitignore :: bool
  custom_ignore_patterns :: "string list"
  force_include_patterns :: "string list"
  output_file :: "string option"
  output_format :: string

definition get_root_path :: "filesystem \<Rightarrow> config \<Rightarrow> path" where
  "get_root_path fs cfg = resolve fs (root_path cfg)"


section \<open>Rule files: \<open>utils.find_gitignore_files\<close> and \<open>utils.parse_gitignore\<close>\<close>

text \<open>
  The loop of \<open>find_gitignore_files\<close> over the root and its parents. \<open>exists()\<close> is not
  guarded: the error it raises ends the loop and the function.
\<close>

fun find_in :: "filesystem \<Rightarrow> path list \<Rightarrow> os_error + path list" where
  "find_in fs [] = Inr []"
| "find_in fs (current_path # rest) =
     (let gitignore_path = current_path @ [''.gitignore''] in
      case entry_exists (entry_at fs gitignore_path) of
        Inl err \<Rightarrow> Inl err
      | Inr found \<Rightarrow>
          (case find_in fs rest of
             Inl err \<Rightarrow> Inl err
           | Inr gitignore_files \<Rightarrow>
               Inr (if found then gitignore_path # gitignore_files else gitignore_files)))"

definition find_gitignore_files :: "filesystem \<Rightarrow> path \<Rightarrow> os_error + path list" where
  "find_gitignore_files fs root = find_in fs (root # parents root)"

text \<open>
  The loop over the lines, with the two lists built so far. A read error leaves the loop
  through the \<open>except\<close> clause, which does nothing; the lists are then returned as they are.
\<close>

fun parse_lines :: "read_step list \<Rightarrow> string list \<times> string list \<Rightarrow> string list \<times> string list" where
  "parse_lines [] (ignore_pats, include_pats) = (ignore_pats, include_pats)"
| "parse_lines (Read_Error # rest) (ignore_pats, include_pats) = (ignore_pats, include_pats)"
| "parse_lines (Line l # rest) (ignore_pats, include_pats) =
     (let line = strip l in
      if line = [] \<or> startswith line ''#'' then parse_lines rest (ignore_pats, include_pats)
      else if startswith line ''!'' then parse_lines rest (ignore_pats, include_pats @ [drop 1 line])
      else parse_lines rest (ignore_pats @ [line], include_pats))"

definition parse_gitignore :: "text_file \<Rightarrow> string list \<times> string list" where
  "parse_gitignore f =
     (case f of
        Cannot_Open \<Rightarrow> ([], [])
      | Opened steps \<Rightarrow> parse_lines steps ([], []))"


section \<open>\<open>processor.TreeNode\<close> and \<open>processor.TreeProcessor\<close>\<close>

datatype tree_node =
  TreeNode (node_path: path) (node_name: string) (node_is_dir: bool) (node_size: nat)
    (node_children: "tree_node list")

text \<open>
  The two pattern sets of a processor are Python sets. Each is modelled by the list of its
  members in the order the set iterates them, an order the language leaves open;
  \<open>update\<close> adds the members that are new.
\<close>

record processor =
  config :: config
  ignore_patterns :: "string list"
  include_patterns :: "string list"

definition update :: "string list \<Rightarrow> string list \<Rightarrow> string list" where
  "update s xs = s @ filter (\<lambda>x. x \<notin> set s) (remdups xs)"

definition load_file :: "filesystem \<Rightarrow> path \<Rightarrow> processor \<Rightarrow> processor" where
  "load_file fs gitignore_file self =
     (let (ignore_pats, include_pats) = parse_gitignore (read_text fs gitignore_file) in
      self\<lparr>ignore_patterns := update (ignore_patterns self) ignore_pats,
           include_patterns := update (include_patterns self) include_pats\<rparr>)"

definition load_ignore_patterns :: "filesystem \<Rightarrow> processor \<Rightarrow> os_error + processor" where
  "load_ignore_patterns fs self =
     (if \<not> respect_gitignore (config self) then Inr self
      else
        let root = get_root_path fs (config self) in
        case find_gitignore_files fs root of
          Inl err \<Rightarrow> Inl err
        | Inr gitignore_files \<Rightarrow>
            let self = fold (load_file fs) gitignore_files self
            in Inr (self\<lparr>ignore_patterns :=
                          update (ignore_patterns self) (custom_ignore_patterns (config self)),
                        include_patterns :=
                          update (include_patterns self) (force_include_patterns (config self))\<rparr>))"

text \<open>The constructor \<open>TreeProcessor(config)\<close>.\<close>

definition TreeProcessor :: "filesystem \<Rightarrow> config \<Rightarrow> os_error + processor" where
  "TreeProcessor fs cfg =
     load_ignore_patterns fs \<lparr>config = cfg, ignore_patterns = [], include_patterns = []\<rparr>"

text \<open>
  A loop \<open>for pattern in patterns: if matches_pattern(...): return ...\<close>: whether it returns.
\<close>

fun some_pattern_matches :: "string list \<Rightarrow> string \<Rightarrow> bool \<Rightarrow> bool" where
  "some_pattern_matches [] relative_path is_dir = False"
| "some_pattern_matches (pattern # patterns) relative_path is_dir =
     (if matches_pattern relative_path pattern is_dir then True
      else some_pattern_matches patterns relative_path is_dir)"

text \<open>
  \<open>should_ignore(path, relative_path)\<close>; \<open>is_dir\<close> is the answer of \<open>path.is_dir()\<close>.
\<close>

definition should_ignore :: "processor \<Rightarrow> path \<Rightarrow> bool \<Rightarrow> string \<Rightarrow> bool" where
  "should_ignore self p is_dir relative_path =
     (if \<not> show_hidden (config self) \<and> startswith (path_name p) ''.'' then True
      else if some_pattern_matches (include_patterns self) relative_path is_dir then False
      else if some_pattern_matches (ignore_patterns self) relative_path is_dir then True
      else False)"

text \<open>\<open>get_file_size\<close>, on the result of \<open>path.stat().st_size\<close>.\<close>

definition get_file_size :: "nat option \<Rightarrow> nat" where
  "get_file_size st = (case st of Some n \<Rightarrow> n | None \<Rightarrow> 0)"

text \<open>The path handed to the filter for a child: relative to the configured root, else the name.\<close>

definition relative_path_of :: "path \<Rightarrow> path \<Rightarrow> string" where
  "relative_path_of config_root child_path =
     (case relative_to child_path config_root of
        Some rel \<Rightarrow> str_relative rel
      | None \<Rightarrow> path_name child_path)"

text \<open>
  The key of \<open>sorted\<close> over the entries of a directory. \<open>sorted\<close> computes it for every
  entry, in the order of the listing, before it compares any; the first entry whose
  \<open>is_dir()\<close> raises ends the sort with that error.
\<close>

fun first_stat_error :: "(string \<times> fs_entry) list \<Rightarrow> os_error option" where
  "first_stat_error [] = None"
| "first_stat_error ((child_name, child) # rest) =
     (case entry_is_dir child of
        Inl err \<Rightarrow> Some err
      | Inr is_dir \<Rightarrow> first_stat_error rest)"

definition entry_key :: "string \<times> fs_entry \<Rightarrow> bool \<times> string" where
  "entry_key = (\<lambda>(child_name, e). (\<not> stat_is_dir e, lower child_name))"

text \<open>
  \<open>build_tree(root_path, current_depth)\<close>, where \<open>e\<close> is what the filesystem holds at
  \<open>root_path\<close>; \<open>Inl\<close> is the error the call raises. \<open>sort_key\<close> is a stable sort, as
  \<open>sorted\<close> is. The inner \<open>case\<close> is the \<open>try\<close> block: the enumeration, the sort and the loop
  over the sorted entries, which the first error ends; the outer one is its \<open>except\<close>
  clause, which catches \<open>PermissionError\<close> alone and leaves the children empty.
\<close>

fun build_tree :: "processor \<Rightarrow> filesystem \<Rightarrow> path \<Rightarrow> fs_entry \<Rightarrow> int \<Rightarrow> os_error + tree_node option" where
  "build_tree self fs root e current_depth =
     (case entry_exists e of
        Inl err \<Rightarrow> Inl err
      | Inr False \<Rightarrow> Inr None
      | Inr True \<Rightarrow>
          if (case max_depth (config self) of Some m \<Rightarrow> current_depth > m | None \<Rightarrow> False)
          then Inr None
          else
            (case e of
               Directory listing \<Rightarrow>
                 (case
                    (case listing of
                       Inl err \<Rightarrow> Inl err
                     | Inr entries \<Rightarrow>
                         (case first_stat_error entries of
                            Some err \<Rightarrow> Inl err
                          | None \<Rightarrow>
                              fold (\<lambda>(child_name, child) result.
                                      case result of
                                        Inl err \<Rightarrow> Inl err
                                      | Inr children \<Rightarrow>
                                          let child_path = root @ [child_name];
                                              relative_path =
                                                relative_path_of (get_root_path fs (config self)) child_path
                                          in if should_ignore self child_path (stat_is_dir child) relative_path
                                             then Inr children
                                             else (case build_tree self fs child_path child (current_depth + 1) of
                                                     Inl err \<Rightarrow> Inl err
                                                   | Inr (Some child_node) \<Rightarrow> Inr (children @ [child_node])
                                                   | Inr None \<Rightarrow> Inr children))
                                   (sort_key entry_key entries) (Inr [])))
                  of
                    Inl PermissionError \<Rightarrow> Inr (Some (TreeNode root (path_name root) True 0 []))
                  | Inl err \<Rightarrow> Inl err
                  | Inr children \<Rightarrow> Inr (Some (TreeNode root (path_name root) True 0 children)))
             | Regular st \<Rightarrow>
                 Inr (Some (TreeNode root (path_name root) False (get_file_size st) []))
             | _ \<Rightarrow> Inr (Some (TreeNode root (path_name root) False 0 []))))"

declare build_tree.simps [simp del]

text \<open>The nodes below a node, at any depth.\<close>

fun descendants :: "tree_node \<Rightarrow> tree_node list" where
  "descendants (TreeNode p n d sz cs) = concat (map (\<lambda>c. c # descendants c) cs)"

text \<open>The sort key of the entries, read off a node of the tree.\<close>

definition node_key :: "tree_node \<Rightarrow> bool \<times> string" where
  "node_key c = (\<not> node_is_dir c, lower (node_name c))"

text \<open>
  What one round of the loop of \<open>build_tree\<close> over the sorted entries does: it raises, or
  contributes the child's node, or nothing when the child is filtered or its own call
  returns \<open>None\<close>.
\<close>

definition visit :: "processor \<Rightarrow> filesystem \<Rightarrow> path \<Rightarrow> int \<Rightarrow> string \<times> fs_entry \<Rightarrow> os_error + tree_node option" where
  "visit self fs root current_depth = (\<lambda>(child_name, child).
     if should_ignore self (root @ [child_name]) (stat_is_dir child)
          (relative_path_of (get_root_path fs (config self)) (root @ [child_name]))
     then Inr None
     else build_tree self fs (root @ [child_name]) child (current_depth + 1))"

text \<open>A loop that ends at the first error and otherwise collects what each round contributes.\<close>

fun collect :: "('a \<Rightarrow> 'e + 'b option) \<Rightarrow> 'a list \<Rightarrow> 'e + 'b list" where
  "collect g [] = Inr []"
| "collect g (x # xs) =
     (case g x of
        Inl err \<Rightarrow> Inl err
      | Inr r \<Rightarrow>
          (case collect g xs of
             Inl err \<Rightarrow> Inl err
           | Inr ys \<Rightarrow> Inr ((case r of Some y \<Rightarrow> [y] | None \<Rightarrow> []) @ ys)))"

text \<open>What the \<open>try\<close> block of \<open>build_tree\<close> computes for a directory.\<close>

definition try_children ::
  "processor \<Rightarrow> filesystem \<Rightarrow> path \<Rightarrow> int \<Rightarrow> os_error + (string \<times> fs_entry) list \<Rightarrow> os_error + tree_node list" where
  "try_children self fs root current_depth listing =
     (case listing of
        Inl err \<Rightarrow> Inl err
      | Inr entries \<Rightarrow>
          (case first_stat_error entries of
             Some err \<Rightarrow> Inl err
           | None \<Rightarrow> collect (visit self fs root current_depth) (sort_key entry_key entries)))"

text \<open>
  Whether, at an entry or below it, \<open>stat\<close> or an enumeration raises an \<open>OSError\<close> that is not a
  \<open>PermissionError\<close>.
\<close>

fun raises_other :: "fs_entry \<Rightarrow> bool" where
  "raises_other (Inaccessible err) = (err = OtherOSError)"
| "raises_other (Directory (Inl err)) = (err = OtherOSError)"
| "raises_other (Directory (Inr entries)) = list_ex (\<lambda>(child_name, child). raises_other child) entries"
| "raises_other e = False"


section \<open>Rendering: \<open>format_tree\<close> and \<open>generate_tree\<close>\<close>

text \<open>
  The branch glyphs, the icon table and the size formatting are cosmetic helpers whose
  output lies outside the characters modelled here (box-drawing characters, emoji, decimal
  fractions); they are parameters of the rendering.
\<close>

record cosmetics =
  last_connector :: string
  mid_connector :: string
  mid_indent :: string
  get_file_icon :: "path \<Rightarrow> string"
  format_file_size :: "nat \<Rightarrow> string"

definition colors :: "(string \<times> string) list" where
  "colors =
     [(''red'', CHR 0x1B # ''[91m''), (''green'', CHR 0x1B # ''[92m''),
      (''yellow'', CHR 0x1B # ''[93m''), (''blue'', CHR 0x1B # ''[94m''),
      (''magenta'', CHR 0x1B # ''[95m''), (''cyan'', CHR 0x1B # ''[96m''),
      (''white'', CHR 0x1B # ''[97m''), (''gray'', CHR 0x1B # ''[90m''),
      (''reset'', CHR 0x1B # ''[0m'')]"

definition colorize_output :: "string \<Rightarrow> string \<Rightarrow> string" where
  "colorize_output text color =
     (case map_of colors color of Some code \<Rightarrow> code | None \<Rightarrow> []) @ text @ (CHR 0x1B # ''[0m'')"

definition display_line :: "processor \<Rightarrow> cosmetics \<Rightarrow> tree_node \<Rightarrow> string \<Rightarrow> bool \<Rightarrow> string" where
  "display_line self cos node prefix is_last =
     (let connector = (if is_last then last_connector cos else mid_connector cos);
          slash = (if node_is_dir node then ''/'' else []);
          display_name = connector @ node_name node @ slash;
          display_name =
            (if use_icons (config self)
             then connector @ get_file_icon cos (node_path node) @ '' '' @ node_name node @ slash
             else display_name);
          display_name =
            (if show_size (config self) \<and> \<not> node_is_dir node
             then display_name @ '' ('' @ format_file_size cos (node_size node) @ '')''
             else display_name);
          display_name =
            (if color_output (config self)
             then colorize_output display_name (if node_is_dir node then ''blue'' else ''white'')
             else display_name)
      in prefix @ display_name)"

fun format_tree :: "processor \<Rightarrow> cosmetics \<Rightarrow> tree_node \<Rightarrow> string \<Rightarrow> bool \<Rightarrow> string list"
  and format_children :: "processor \<Rightarrow> cosmetics \<Rightarrow> tree_node list \<Rightarrow> string \<Rightarrow> string list" where
  "format_tree self cos (TreeNode p n d sz cs) prefix is_last =
     display_line self cos (TreeNode p n d sz cs) prefix is_last
       # format_children self cos cs (prefix @ (if is_last then ''    '' else mid_indent cos))"
| "format_children self cos [] child_prefix = []"
| "format_children self cos (child # rest) child_prefix =
     format_tree self cos child child_prefix (rest = []) @ format_children self cos rest child_prefix"



section \<open>The pattern rules as the specification words them\<close>

text \<open>
  The rules of the specification's PatternMatcher, in its own order: a pattern that starts
  with \<open>/\<close> is matched, without it, against the entire path; else a pattern with a \<open>/\<close> inside
  is matched against the entire path; else some segment of the path matches. Before that, a
  pattern ending in \<open>/\<close> matches directories only and loses the trailing \<open>/\<close>.
\<close>

definition spec_branches :: "string \<Rightarrow> string \<Rightarrow> bool" where
  "spec_branches relative_path pattern =
     (if startswith pattern ''/'' then fnmatch relative_path (tl pattern)
      else if CHR ''/'' \<in> set pattern then fnmatch relative_path pattern
      else (\<exists>segment \<in> set (split relative_path (CHR ''/'')). fnmatch segment pattern))"

definition spec_matches :: "string \<Rightarrow> string \<Rightarrow> bool \<Rightarrow> bool" where
  "spec_matches relative_path pattern is_directory =
     (if endswith pattern ''/'' then is_directory \<and> spec_branches relative_path (butlast pattern)
      else spec_branches relative_path pattern)"


section \<open>Example inputs\<close>

definition default_config :: config where
  "default_config =
     \<lparr>root_path = ''.'', max_depth = None, show_hidden = False, use_icons = False,
      show_size = False, color_output = True, respect_gitignore = True,
      custom_ignore_patterns = [], force_include_patterns = [], output_file = None,
      output_format = ''tree''\<rparr>"

text \<open>A root directory holding one subdirectory, which holds one file of three bytes.\<close>

definition project_dir :: fs_entry where
  "project_dir = Directory (Inr [(''sub'', Directory (Inr [(''f.txt'', Regular (Some 3))]))])"

definition project_fs :: filesystem where
  "project_fs =
     \<lparr>resolve = (\<lambda>s. [''home'', ''proj'']),
      entry_at = (\<lambda>p. if p = [''home'', ''proj''] then project_dir else Absent),
      read_text = (\<lambda>p. Cannot_Open)\<rparr>"


text \<open>A directory whose entries the system delivers files first.\<close>

definition mixed_dir :: fs_entry where
  "mixed_dir =
     Directory (Inr [(''a_file.txt'', Regular (Some 1)), (''z_dir'', Directory (Inr [])),
                     (''B.txt'', Regular None)])"

text \<open>
  A filesystem with two rule files above the root: the nearer one cannot be opened, the
  farther one reads to its end.
\<close>

definition rules_fs :: filesystem where
  "rules_fs =
     \<lparr>resolve = (\<lambda>s. [''home'', ''proj'']),
      entry_at = (\<lambda>p. if p = [''home'', ''proj''] then project_dir
                       else if p = [''home'', ''proj'', ''.gitignore''] then Regular (Some 6)
                       else if p = [''home'', ''.gitignore''] then Regular (Some 21)
                       else Absent),
      read_text = (\<lambda>p. if p = [''home'', ''.gitignore'']
                        then Opened [Line ''*.log'', Line ''!important.log'']
                        else Cannot_Open)\<rparr>"


section \<open>Auxiliary facts\<close>

lemma some_pattern_matches_iff:
  "some_pattern_matches pats rel d \<longleftrightarrow> (\<exists>pat \<in> set pats. matches_pattern rel pat d)"
  by (induction pats) auto

lemma fold_collect:
  "fold (\<lambda>x result. case result of
                      Inl err \<Rightarrow> Inl err
                    | Inr ys \<Rightarrow> (case g x of
                                   Inl err \<Rightarrow> Inl err
                                 | Inr (Some y) \<Rightarrow> Inr (ys @ [y])
                                 | Inr None \<Rightarrow> Inr ys)) xs result
   = (case result of
        Inl err \<Rightarrow> Inl err
      | Inr ys \<Rightarrow> (case collect g xs of Inl err \<Rightarrow> Inl err | Inr zs \<Rightarrow> Inr (ys @ zs)))"
  by (induction xs arbitrary: result) (auto split: sum.splits option.splits)

lemma sum_case_id: "(case x of Inl a \<Rightarrow> Inl a | Inr b \<Rightarrow> Inr b) = x"
  by (cases x) simp_all

text \<open>The \<open>try\<close> block of \<open>build_tree\<close> computes \<open>try_children\<close>.\<close>

lemma build_tree_eq:
  "build_tree self fs root e d =
     (case entry_exists e of
        Inl err \<Rightarrow> Inl err
      | Inr False \<Rightarrow> Inr None
      | Inr True \<Rightarrow>
          if (case max_depth (config self) of Some m \<Rightarrow> d > m | None \<Rightarrow> False) then Inr None
          else
            (case e of
               Directory listing \<Rightarrow>
                 (case try_children self fs root d listing of
                    Inl PermissionError \<Rightarrow> Inr (Some (TreeNode root (path_name root) True 0 []))
                  | Inl err \<Rightarrow> Inl err
                  | Inr children \<Rightarrow> Inr (Some (TreeNode root (path_name root) True 0 children)))
             | Regular st \<Rightarrow> Inr (Some (TreeNode root (path_name root) False (get_file_size st) []))
             | _ \<Rightarrow> Inr (Some (TreeNode root (path_name root) False 0 []))))"
proof -
  have f: "(\<lambda>(child_name, child) result.
              case result of
                Inl err \<Rightarrow> Inl err
              | Inr children \<Rightarrow>
                  let child_path = root @ [child_name];
                      relative_path = relative_path_of (get_root_path fs (config self)) child_path
                  in if should_ignore self child_path (stat_is_dir child) relative_path
                     then Inr children
                     else (case build_tree self fs child_path child (d + 1) of
                             Inl err \<Rightarrow> Inl err
                           | Inr (Some child_node) \<Rightarrow> Inr (children @ [child_node])
                           | Inr None \<Rightarrow> Inr children))
         = (\<lambda>x result. case result of
                      Inl err \<Rightarrow> Inl err
                    | Inr ys \<Rightarrow> (case visit self fs root d x of
                                   Inl err \<Rightarrow> Inl err
                                 | Inr (Some y) \<Rightarrow> Inr (ys @ [y])
                                 | Inr None \<Rightarrow> Inr ys))"
    by (auto simp: visit_def fun_eq_iff Let_def split: option.splits sum.splits)
  have t: "try_children self fs root d listing
           = (case listing of
                Inl err \<Rightarrow> Inl err
              | Inr entries \<Rightarrow>
                  (case first_stat_error entries of
                     Some err \<Rightarrow> Inl err
                   | None \<Rightarrow>
                       fold (\<lambda>x result. case result of
                                Inl err \<Rightarrow> Inl err
                              | Inr ys \<Rightarrow> (case visit self fs root d x of
                                             Inl err \<Rightarrow> Inl err
                                           | Inr (Some y) \<Rightarrow> Inr (ys @ [y])
                                           | Inr None \<Rightarrow> Inr ys))
                            (sort_key entry_key entries) (Inr [])))" for listing
    by (simp add: try_children_def fold_collect sum_case_id split: sum.splits option.splits)
  show ?thesis
    by (subst build_tree.simps) (simp only: f t)
qed

lemma collect_set:
  "collect g xs = Inr ys \<Longrightarrow> y \<in> set ys \<longleftrightarrow> (\<exists>x \<in> set xs. g x = Inr (Some y))"
  by (induction xs arbitrary: ys) (auto split: sum.splits option.splits)

lemma collect_map:
  "collect g xs = Inr ys \<Longrightarrow> (\<And>x y. x \<in> set xs \<Longrightarrow> g x = Inr (Some y) \<Longrightarrow> h y = k x) \<Longrightarrow>
   map h ys = map k (filter (\<lambda>x. \<exists>y. g x = Inr (Some y)) xs)"
  by (induction xs arbitrary: ys) (auto split: sum.splits option.splits)

lemma collect_agree:
  "(\<And>x. x \<in> set xs \<Longrightarrow> g x = g' x) \<Longrightarrow> collect g xs = collect g' xs"
  by (induction xs) (auto split: sum.splits option.splits)

lemma collect_Inl: "collect g xs = Inl err \<Longrightarrow> \<exists>x \<in> set xs. g x = Inl err"
  by (induction xs) (auto split: sum.splits option.splits)

lemma first_stat_error_Some:
  "first_stat_error entries = Some err \<Longrightarrow> \<exists>nm. (nm, Inaccessible err) \<in> set entries"
proof (induction entries)
  case Nil
  then show ?case by simp
next
  case (Cons x entries)
  obtain nm child where x: "x = (nm, child)" by (cases x)
  show ?case
  proof (cases "entry_is_dir child")
    case (Inl err')
    with Cons.prems x have "child = Inaccessible err"
      by (cases child) auto
    with x show ?thesis by auto
  next
    case (Inr b)
    with Cons x show ?thesis by auto
  qed
qed

lemma build_tree_fields:
  "build_tree self fs root e d = Inr (Some t) \<Longrightarrow>
     node_path t = root \<and> node_name t = path_name root \<and> node_is_dir t = stat_is_dir e"
  by (cases e) (auto simp: build_tree_eq split: if_splits sum.splits os_error.splits)

lemma build_tree_children:
  "build_tree self fs root e d = Inr (Some t) \<Longrightarrow>
     node_children t = []
     \<or> (\<exists>entries. e = Directory (Inr entries) \<and> first_stat_error entries = None
          \<and> collect (visit self fs root d) (sort_key entry_key entries) = Inr (node_children t))"
  by (cases e)
     (auto simp: build_tree_eq try_children_def split: if_splits sum.splits os_error.splits option.splits)

text \<open>The only \<open>PermissionError\<close> that leaves \<open>build_tree\<close> is the one \<open>exists()\<close> raises.\<close>

lemma build_tree_raises_root:
  "build_tree self fs root e d = Inl PermissionError \<Longrightarrow> e = Inaccessible PermissionError"
  by (cases e) (auto simp: build_tree_eq split: if_splits sum.splits os_error.splits)

lemma os_error_cases: "err = PermissionError \<or> err = OtherOSError"
  by (cases err) simp_all

lemma visit_Some:
  "visit self fs root d (nm, child) = Inr (Some c) \<Longrightarrow>
     \<not> should_ignore self (root @ [nm]) (stat_is_dir child)
          (relative_path_of (get_root_path fs (config self)) (root @ [nm]))
     \<and> build_tree self fs (root @ [nm]) child (d + 1) = Inr (Some c)"
  by (auto simp: visit_def split: if_splits)

lemma visit_key: "visit self fs root d x = Inr (Some c) \<Longrightarrow> node_key c = entry_key x"
  by (cases x) (auto simp: node_key_def entry_key_def path_name_def dest!: visit_Some build_tree_fields)

lemma descendants_children:
  "n \<in> set (descendants t) \<longleftrightarrow> (\<exists>c \<in> set (node_children t). n = c \<or> n \<in> set (descendants c))"
  by (cases t) auto

lemma children_sorted_root:
  assumes "build_tree self fs root e d = Inr (Some t)"
  shows "sorted (map node_key (node_children t))"
proof -
  from build_tree_children [OF assms] show ?thesis
  proof
    assume "node_children t = []"
    then show ?thesis by simp
  next
    assume "\<exists>entries. e = Directory (Inr entries) \<and> first_stat_error entries = None
          \<and> collect (visit self fs root d) (sort_key entry_key entries) = Inr (node_children t)"
    then obtain entries where
      c: "collect (visit self fs root d) (sort_key entry_key entries) = Inr (node_children t)"
      by blast
    have "map node_key (node_children t)
          = map entry_key (filter (\<lambda>x. \<exists>y. visit self fs root d x = Inr (Some y))
                             (sort_key entry_key entries))"
      using c by (rule collect_map) (rule visit_key)
    moreover have "sorted (map entry_key (sort_key entry_key entries))"
      by (rule sorted_sort_key)
    ultimately show ?thesis
      by (simp add: sorted_filter)
  qed
qed

text \<open>Every child node comes from an entry of the directory that passed the filter.\<close>

lemma build_tree_descend:
  assumes "build_tree self fs root e d = Inr (Some t)" and "c \<in> set (node_children t)"
  obtains nm child entries where "e = Directory (Inr entries)" and "(nm, child) \<in> set entries"
    and "build_tree self fs (root @ [nm]) child (d + 1) = Inr (Some c)"
    and "\<not> should_ignore self (root @ [nm]) (stat_is_dir child)
          (relative_path_of (get_root_path fs (config self)) (root @ [nm]))"
proof -
  from build_tree_children [OF assms(1)] assms(2) obtain entries where e: "e = Directory (Inr entries)"
    and col: "collect (visit self fs root d) (sort_key entry_key entries) = Inr (node_children t)"
    by auto
  from collect_set [OF col, of c] assms(2) obtain x where
    x: "x \<in> set entries" "visit self fs root d x = Inr (Some c)"
    by auto
  obtain nm child where "x = (nm, child)" by (cases x)
  with x e that visit_Some [of self fs root d nm child c] show thesis by blast
qed

lemma children_sorted_all:
  "build_tree self fs root e d = Inr (Some t) \<Longrightarrow> n \<in> set (t # descendants t) \<Longrightarrow>
     sorted (map node_key (node_children n))"
proof (induction e arbitrary: root d t n)
  case (Directory listing)
  show ?case
  proof (cases "n = t")
    case True
    with Directory.prems(1) show ?thesis by (simp add: children_sorted_root)
  next
    case False
    with Directory.prems(2) obtain c where c: "c \<in> set (node_children t)" "n \<in> set (c # descendants c)"
      by (auto simp: descendants_children [of n t])
    from Directory.prems(1) c(1) obtain nm child entries where
      l: "Directory listing = Directory (Inr entries)" and m: "(nm, child) \<in> set entries"
      and b: "build_tree self fs (root @ [nm]) child (d + 1) = Inr (Some c)"
      by (rule build_tree_descend)
    from l m have "entries \<in> Basic_BNFs.setr listing" "child \<in> Basic_BNFs.snds (nm, child)" by auto
    from Directory.IH [OF this(1) m this(2) b c(2)] show ?thesis .
  qed
qed (auto simp: build_tree_eq split: if_splits)

lemma descendants_accepted:
  "build_tree self fs root e d = Inr (Some t) \<Longrightarrow> n \<in> set (descendants t) \<Longrightarrow>
     \<not> should_ignore self (node_path n) (node_is_dir n)
          (relative_path_of (get_root_path fs (config self)) (node_path n))"
proof (induction e arbitrary: root d t n)
  case (Directory listing)
  from Directory.prems(2) obtain c where c: "c \<in> set (node_children t)" "n = c \<or> n \<in> set (descendants c)"
    by (auto simp: descendants_children [of n t])
  from Directory.prems(1) c(1) obtain nm child entries where
    l: "Directory listing = Directory (Inr entries)" and m: "(nm, child) \<in> set entries"
    and b: "build_tree self fs (root @ [nm]) child (d + 1) = Inr (Some c)"
    and a: "\<not> should_ignore self (root @ [nm]) (stat_is_dir child)
          (relative_path_of (get_root_path fs (config self)) (root @ [nm]))"
    by (rule build_tree_descend)
  show ?case
  proof (cases "n = c")
    case True
    with a build_tree_fields [OF b] show ?thesis by simp
  next
    case False
    with c(2) have n: "n \<in> set (descendants c)" by simp
    from l m have "entries \<in> Basic_BNFs.setr listing" "child \<in> Basic_BNFs.snds (nm, child)" by auto
    from Directory.IH [OF this(1) m this(2) b n] show ?thesis .
  qed
qed (auto simp: build_tree_eq split: if_splits)

text \<open>An error other than \<open>PermissionError\<close> that leaves \<open>build_tree\<close> was raised at or below the entry.\<close>

lemma build_tree_raises_other:
  "build_tree self fs root e d = Inl OtherOSError \<Longrightarrow> raises_other e"
proof (induction e arbitrary: root d)
  case (Directory listing)
  from Directory.prems have t: "try_children self fs root d listing = Inl OtherOSError"
    by (auto simp: build_tree_eq split: if_splits sum.splits os_error.splits)
  show ?case
  proof (cases listing)
    case (Inl err)
    with t show ?thesis by (simp add: try_children_def)
  next
    case (Inr entries)
    show ?thesis
    proof (cases "first_stat_error entries")
      case (Some err)
      with t Inr have "err = OtherOSError" by (simp add: try_children_def)
      with Some first_stat_error_Some [of entries err] obtain nm where
        "(nm, Inaccessible OtherOSError) \<in> set entries" by auto
      then have "list_ex (\<lambda>(child_name, child). raises_other child) entries"
        unfolding list_ex_iff by (rule bexI [rotated]) simp
      with Inr show ?thesis by simp
    next
      case None
      with t Inr have "collect (visit self fs root d) (sort_key entry_key entries) = Inl OtherOSError"
        by (simp add: try_children_def)
      from collect_Inl [OF this] obtain nm child where m: "(nm, child) \<in> set entries"
        and v: "visit self fs root d (nm, child) = Inl OtherOSError"
        by auto
      from v have b: "build_tree self fs (root @ [nm]) child (d + 1) = Inl OtherOSError"
        by (auto simp: visit_def split: if_splits)
      from Inr m have "entries \<in> Basic_BNFs.setr listing" "child \<in> Basic_BNFs.snds (nm, child)" by auto
      from Directory.IH [OF this(1) m this(2) b] have "raises_other child" .
      with m have "list_ex (\<lambda>(child_name, child). raises_other child) entries"
        unfolding list_ex_iff by (intro bexI [of _ "(nm, child)"]) simp_all
      with Inr show ?thesis by simp
    qed
  qed
qed (auto simp: build_tree_eq split: if_splits)

lemma should_ignore_sets:
  "config self = config self' \<Longrightarrow> set (ignore_patterns self) = set (ignore_patterns self') \<Longrightarrow>
   set (include_patterns self) = set (include_patterns self') \<Longrightarrow>
   should_ignore self p d rel = should_ignore self' p d rel"
  by (simp add: should_ignore_def some_pattern_matches_iff)

lemma build_tree_sets:
  "config self = config self' \<Longrightarrow> set (ignore_patterns self) = set (ignore_patterns self') \<Longrightarrow>
   set (include_patterns self) = set (include_patterns self') \<Longrightarrow>
   build_tree self fs root e d = build_tree self' fs root e d"
proof (induction e arbitrary: root d)
  case (Directory listing)
  have "try_children self fs root d listing = try_children self' fs root d listing"
  proof (cases listing)
    case (Inl err)
    then show ?thesis by (simp add: try_children_def)
  next
    case (Inr entries)
    have "visit self fs root d x = visit self' fs root d x" if "x \<in> set (sort_key entry_key entries)" for x
    proof -
      obtain nm child where x: "x = (nm, child)" by (cases x)
      with that Inr have "entries \<in> Basic_BNFs.setr listing" "(nm, child) \<in> set entries"
        "child \<in> Basic_BNFs.snds (nm, child)" by auto
      from Directory.IH [OF this Directory.prems] should_ignore_sets [OF Directory.prems] x
      show ?thesis by (simp add: visit_def Directory.prems(1))
    qed
    then have "collect (visit self fs root d) (sort_key entry_key entries)
             = collect (visit self' fs root d) (sort_key entry_key entries)"
      by (rule collect_agree)
    with Inr show ?thesis by (simp add: try_children_def split: option.splits)
  qed
  with Directory.prems(1) show ?case by (simp add: build_tree_eq)
qed (simp_all add: build_tree_eq)

lemma parse_lines_prefix:
  "parse_lines (map Line ls @ Read_Error # rest) acc = parse_lines (map Line ls) acc"
proof (induction ls arbitrary: acc)
  case Nil
  show ?case by (cases acc) simp
next
  case (Cons l ls)
  show ?case by (cases acc) (simp add: Let_def Cons.IH)
qed

lemma set_update: "set (update s xs) = set s \<union> set xs"
  by (auto simp: update_def)

lemma fold_load_file:
  "config (fold (load_file fs) files self) = config self
   \<and> set (ignore_patterns (fold (load_file fs) files self))
       = set (ignore_patterns self) \<union> (\<Union>f \<in> set files. set (fst (parse_gitignore (read_text fs f))))
   \<and> set (include_patterns (fold (load_file fs) files self))
       = set (include_patterns self) \<union> (\<Union>f \<in> set files. set (snd (parse_gitignore (read_text fs f))))"
  by (induction files arbitrary: self) (auto simp: load_file_def set_update split: prod.splits)


section \<open>The pattern matcher\<close>

lemmas matches_pattern_eval = matches_pattern_def endswith_def startswith_def fnmatch_def

text \<open>
  C1. For every relative path, pattern and directory flag, \<open>matches_pattern\<close> decides by the
  four rules of the specification in their order: a pattern ending in \<open>/\<close> matches only a
  directory and is matched further without that \<open>/\<close>; the pattern that remains is then,
  if it starts with \<open>/\<close>, matched without it against the entire path; else, if it contains
  a \<open>/\<close>, matched as it is against the entire path; else matched against the segments of
  the path, and some segment has to match.
\<close>

theorem matches_pattern_four_branches:
  "matches_pattern p s d = spec_matches p s d"
  by (simp add: matches_pattern_def spec_matches_def spec_branches_def Let_def list_ex_iff drop_Suc)

theorem matches_pattern_four_branches_witness:
  "\<not> spec_matches ''build'' ''build/'' False
   \<and> spec_matches ''build'' ''build/'' True
   \<and> spec_matches ''config.json'' ''/config.json'' False
   \<and> spec_matches ''src/test.py'' ''src/*.py'' False
   \<and> spec_matches ''a/node_modules/b'' ''node_modules'' True"
  using matches_pattern_four_branches [of "''build''" "''build/''" False]
        matches_pattern_four_branches [of "''build''" "''build/''" True]
        matches_pattern_four_branches [of "''config.json''" "''/config.json''" False]
        matches_pattern_four_branches [of "''src/test.py''" "''src/*.py''" False]
        matches_pattern_four_branches [of "''a/node_modules/b''" "''node_modules''" True]
  by (simp add: matches_pattern_eval)

text \<open>
  C2. The pattern table. One row fails: \<open>src/*.py\<close> does match \<open>src/nested/test.py\<close>,
  because the \<open>*\<close> of \<open>fnmatch\<close> runs across \<open>/\<close>.
\<close>

theorem star_crosses_separator:
  "matches_pattern ''src/nested/test.py'' ''src/*.py'' False"
  by (simp add: matches_pattern_eval)

text \<open>The other rows of the table hold.\<close>

lemma fnmatch_node_modules: "fnmatch ''node_modules'' ''node_modules''"
  by (simp add: fnmatch_def)

lemma pattern_table_rest:
  "matches_pattern ''build'' ''build/'' True"
  "\<not> matches_pattern ''build'' ''build/'' False"
  "matches_pattern ''config.json'' ''/config.json'' False"
  "\<not> matches_pattern ''src/config.json'' ''/config.json'' False"
  "matches_pattern ''src/test.py'' ''src/*.py'' False"
  "\<not> matches_pattern ''test.py'' ''src/*.py'' False"
  "''node_modules'' \<in> set (split p (CHR ''/'')) \<Longrightarrow> matches_pattern p ''node_modules'' d"
proof -
  show "''node_modules'' \<in> set (split p (CHR ''/'')) \<Longrightarrow> matches_pattern p ''node_modules'' d"
    using fnmatch_node_modules
    by (auto simp: matches_pattern_def endswith_def startswith_def list_ex_iff)
qed (simp_all add: matches_pattern_eval)


section \<open>The filter\<close>

lemma log_patterns:
  "matches_pattern ''debug.log'' ''*.log'' False"
  "\<not> matches_pattern ''debug.log'' ''important.log'' False"
  "matches_pattern ''important.log'' ''important.log'' False"
  "matches_pattern ''important.log'' ''*.log'' False"
  "\<not> matches_pattern ''main.py'' ''*.log'' False"
  "\<not> matches_pattern ''main.py'' ''important.log'' False"
  "matches_pattern ''.env'' ''.env*'' False"
  by (simp_all add: matches_pattern_eval)

text \<open>
  C3. For an entry that the hidden-file rule does not hide: when some override rule matches
  its relative path, \<open>should_ignore\<close> is false, whatever the ignore rules; when no override
  rule matches and some ignore rule does, it is true; when no rule matches, it is false.
\<close>

theorem should_ignore_override_precedence:
  assumes "show_hidden (config self) \<or> \<not> startswith (path_name p) ''.''"
  shows "((\<exists>pat \<in> set (include_patterns self). matches_pattern rel pat d)
            \<longrightarrow> \<not> should_ignore self p d rel)
       \<and> ((\<forall>pat \<in> set (include_patterns self). \<not> matches_pattern rel pat d)
            \<and> (\<exists>pat \<in> set (ignore_patterns self). matches_pattern rel pat d)
            \<longrightarrow> should_ignore self p d rel)
       \<and> ((\<forall>pat \<in> set (include_patterns self). \<not> matches_pattern rel pat d)
            \<and> (\<forall>pat \<in> set (ignore_patterns self). \<not> matches_pattern rel pat d)
            \<longrightarrow> \<not> should_ignore self p d rel)"
  using assms by (auto simp: should_ignore_def some_pattern_matches_iff)

theorem should_ignore_override_precedence_witness:
  "\<not> startswith (path_name [''important.log'']) ''.''
   \<and> matches_pattern ''important.log'' ''*.log'' False
   \<and> \<not> should_ignore
         \<lparr>config = default_config, ignore_patterns = [''*.log''], include_patterns = [''important.log'']\<rparr>
         [''important.log''] False ''important.log''
   \<and> should_ignore
         \<lparr>config = default_config, ignore_patterns = [''*.log''], include_patterns = [''important.log'']\<rparr>
         [''debug.log''] False ''debug.log''
   \<and> \<not> should_ignore
         \<lparr>config = default_config, ignore_patterns = [''*.log''], include_patterns = [''important.log'']\<rparr>
         [''main.py''] False ''main.py''"
  using should_ignore_override_precedence
          [of "\<lparr>config = default_config, ignore_patterns = [''*.log''], include_patterns = [''important.log'']\<rparr>"
              "[''important.log'']" "''important.log''" False]
        should_ignore_override_precedence
          [of "\<lparr>config = default_config, ignore_patterns = [''*.log''], include_patterns = [''important.log'']\<rparr>"
              "[''debug.log'']" "''debug.log''" False]
        should_ignore_override_precedence
          [of "\<lparr>config = default_config, ignore_patterns = [''*.log''], include_patterns = [''important.log'']\<rparr>"
              "[''main.py'']" "''main.py''" False]
        log_patterns
  by (simp add: path_name_def startswith_def)

text \<open>
  C4. An entry whose base name starts with \<open>.\<close> is hidden whenever show-hidden is off,
  whatever the two pattern sets hold: an override rule that matches it does not show it.
\<close>

theorem hidden_before_patterns:
  "\<not> show_hidden (config self) \<Longrightarrow> startswith (path_name p) ''.'' \<Longrightarrow> should_ignore self p d rel"
  by (simp add: should_ignore_def)

theorem hidden_before_patterns_witness:
  "\<not> show_hidden default_config \<and> startswith (path_name [''.env'']) ''.''
   \<and> matches_pattern ''.env'' ''.env*'' False
   \<and> should_ignore \<lparr>config = default_config, ignore_patterns = [], include_patterns = [''.env*'']\<rparr>
        [''.env''] False ''.env''"
  using hidden_before_patterns
          [of "\<lparr>config = default_config, ignore_patterns = [], include_patterns = [''.env*'']\<rparr>"
              "[''.env'']" False "''.env''"]
        log_patterns
  by (simp add: path_name_def startswith_def default_config_def)


section \<open>The depth bound\<close>

lemmas build_tree_eval =
  build_tree_eq try_children_def visit_def default_config_def path_name_def entry_key_def
  lower_def lower_char_def should_ignore_def startswith_def get_file_size_def
  less_eq_char_def less_char_def relative_path_of_def relative_to_def str_relative_def
  get_root_path_def

text \<open>
  C5, as stated: with \<open>max_depth\<close> 0 the subdirectory would be a child of the root, with no
  children of its own. The code cuts the subdirectory itself: the root has no children.
\<close>

theorem depth_zero_cuts_subdirectory:
  "build_tree
     \<lparr>config = default_config\<lparr>max_depth := Some 0\<rparr>, ignore_patterns = [], include_patterns = []\<rparr>
     project_fs [''home'', ''proj''] project_dir 0
   = Inr (Some (TreeNode [''home'', ''proj''] ''proj'' True 0 []))"
  by (simp add: build_tree_eval project_dir_def)

text \<open>
  C5, amended. On a root directory holding one subdirectory that holds one file: with
  \<open>max_depth\<close> 0 the tree is the root node with an empty children sequence; with
  \<open>max_depth\<close> 1, when the filter accepts the subdirectory, the subdirectory node is the
  one child of the root and its children sequence is empty.
\<close>

theorem depth_bound_subdirectory:
  "(max_depth (config self) = Some 0 \<longrightarrow>
      build_tree self fs root (Directory (Inr [(d, Directory (Inr [(f, Regular st)]))])) 0
        = Inr (Some (TreeNode root (path_name root) True 0 [])))
   \<and> (max_depth (config self) = Some 1
        \<and> \<not> should_ignore self (root @ [d]) True
              (relative_path_of (get_root_path fs (config self)) (root @ [d])) \<longrightarrow>
      build_tree self fs root (Directory (Inr [(d, Directory (Inr [(f, Regular st)]))])) 0
        = Inr (Some (TreeNode root (path_name root) True 0 [TreeNode (root @ [d]) d True 0 []])))"
proof -
  let ?sub = "Directory (Inr [(f, Regular st)])"
  have cut: "build_tree self fs r e k = Inr None"
    if "max_depth (config self) = Some m" "m < k" "entry_exists e = Inr True" for r e k m
    using that by (simp add: build_tree_eq)
  have zero: "visit self fs root 0 (d, ?sub) = Inr None" if "max_depth (config self) = Some 0"
    using cut [OF that, of "0 + 1" ?sub] by (simp add: visit_def)
  have inner: "visit self fs (root @ [d]) (0 + 1) (f, Regular st) = Inr None"
    if "max_depth (config self) = Some 1"
    using cut [OF that, of "0 + 1 + 1" "Regular st"] by (simp add: visit_def)
  have sub: "build_tree self fs (root @ [d]) ?sub (0 + 1)
               = Inr (Some (TreeNode (root @ [d]) d True 0 []))"
    if "max_depth (config self) = Some 1"
    using that inner [OF that]
    by (simp add: build_tree_eq [of self fs "root @ [d]"] try_children_def path_name_def)
  have one: "visit self fs root 0 (d, ?sub) = Inr (Some (TreeNode (root @ [d]) d True 0 []))"
    if "max_depth (config self) = Some 1"
      "\<not> should_ignore self (root @ [d]) True
          (relative_path_of (get_root_path fs (config self)) (root @ [d]))"
    using that sub by (simp add: visit_def)
  show ?thesis
    using zero one
    by (auto simp: build_tree_eq [of self fs root] try_children_def)
qed

theorem depth_bound_subdirectory_witness:
  "max_depth (default_config\<lparr>max_depth := Some 1\<rparr>) = Some 1
   \<and> \<not> should_ignore
         \<lparr>config = default_config\<lparr>max_depth := Some 1\<rparr>, ignore_patterns = [], include_patterns = []\<rparr>
         [''home'', ''proj'', ''sub''] True ''sub''
   \<and> build_tree
       \<lparr>config = default_config\<lparr>max_depth := Some 1\<rparr>, ignore_patterns = [], include_patterns = []\<rparr>
       project_fs [''home'', ''proj''] project_dir 0
     = Inr (Some (TreeNode [''home'', ''proj''] ''proj'' True 0
               [TreeNode [''home'', ''proj'', ''sub''] ''sub'' True 0 []]))
   \<and> build_tree
       \<lparr>config = default_config\<lparr>max_depth := Some 0\<rparr>, ignore_patterns = [], include_patterns = []\<rparr>
       project_fs [''home'', ''proj''] project_dir 0
     = Inr (Some (TreeNode [''home'', ''proj''] ''proj'' True 0 []))"
  using depth_bound_subdirectory
          [of "\<lparr>config = default_config\<lparr>max_depth := Some 1\<rparr>, ignore_patterns = [], include_patterns = []\<rparr>"
              project_fs "[''home'', ''proj'']" "''sub''" "''f.txt''" "Some 3"]
        depth_bound_subdirectory
          [of "\<lparr>config = default_config\<lparr>max_depth := Some 0\<rparr>, ignore_patterns = [], include_patterns = []\<rparr>"
              project_fs "[''home'', ''proj'']" "''sub''" "''f.txt''" "Some 3"]
  by (simp add: project_dir_def project_fs_def default_config_def path_name_def should_ignore_def
        startswith_def relative_path_of_def relative_to_def str_relative_def get_root_path_def)


section \<open>Rule files that cannot be read\<close>

text \<open>
  C6. A rule file on which reading fails is to contribute no rule, wherever the failure
  strikes. The code keeps what it parsed before the failure: a file that delivers the line
  \<open>*.log\<close> and then fails contributes the ignore rule \<open>*.log\<close>.
\<close>

theorem partial_read_keeps_rules:
  "parse_gitignore (Opened [Line (''*.log'' @ [CHR 0x0A]), Read_Error]) = ([''*.log''], [])"
  by (simp add: parse_gitignore_def strip_def isspace_def startswith_def)

text \<open>
  The other failures do give no rule: a file that cannot be opened, and a file whose reading
  fails before the first line. A failure after some lines gives what a file ending there
  would give.
\<close>

lemma rule_file_failures:
  "parse_gitignore Cannot_Open = ([], [])"
  "parse_gitignore (Opened (Read_Error # rest)) = ([], [])"
  "parse_gitignore (Opened (map Line ls @ Read_Error # rest)) = parse_gitignore (Opened (map Line ls))"
  by (simp_all add: parse_gitignore_def parse_lines_prefix)

text \<open>
  Loading goes through every discovered file, whatever reading each one gave; it raises
  only when the discovery does, at an \<open>exists()\<close> that raises.
\<close>

lemma load_ignore_patterns_merges:
  assumes "respect_gitignore (config self)"
  shows "(find_gitignore_files fs (get_root_path fs (config self)) = Inl err \<longrightarrow>
            load_ignore_patterns fs self = Inl err)
       \<and> (find_gitignore_files fs (get_root_path fs (config self)) = Inr files \<longrightarrow>
            (\<exists>loaded. load_ignore_patterns fs self = Inr loaded
               \<and> set (ignore_patterns loaded)
                   = set (ignore_patterns self)
                     \<union> (\<Union>f \<in> set files. set (fst (parse_gitignore (read_text fs f))))
                     \<union> set (custom_ignore_patterns (config self))
               \<and> set (include_patterns loaded)
                   = set (include_patterns self)
                     \<union> (\<Union>f \<in> set files. set (snd (parse_gitignore (read_text fs f))))
                     \<union> set (force_include_patterns (config self))))"
  using assms fold_load_file [of fs files self]
  by (simp add: load_ignore_patterns_def Let_def set_update)

lemma rules_fs_files:
  "find_gitignore_files rules_fs [''home'', ''proj'']
     = Inr [[''home'', ''proj'', ''.gitignore''], [''home'', ''.gitignore'']]"
  by (simp add: find_gitignore_files_def parents.simps rules_fs_def)

lemma rules_fs_loaded:
  "\<exists>loaded. TreeProcessor rules_fs default_config = Inr loaded
     \<and> set (ignore_patterns loaded) = {''*.log''}
     \<and> set (include_patterns loaded) = {''important.log''}"
  using load_ignore_patterns_merges
          [of "\<lparr>config = default_config, ignore_patterns = [], include_patterns = []\<rparr>" rules_fs
              _ "[[''home'', ''proj'', ''.gitignore''], [''home'', ''.gitignore'']]"]
        rules_fs_files
  by (simp add: TreeProcessor_def get_root_path_def)
     (simp add: default_config_def rules_fs_def parse_gitignore_def strip_def isspace_def
        startswith_def)


section \<open>The tree\<close>

text \<open>
  C7. In every tree that \<open>build_tree\<close> returns, the children of every node are sorted by
  the key (not a directory, name in lower case): a directory child never comes after a file
  child, and children of the same kind are in the order of their lower-case names.
\<close>

theorem children_sorted:
  assumes "build_tree self fs root e d = Inr (Some t)" and "n \<in> set (t # descendants t)"
  shows "sorted (map node_key (node_children n))
       \<and> (\<forall>j < length (node_children n). \<forall>i < j.
            (node_is_dir (node_children n ! j) \<longrightarrow> node_is_dir (node_children n ! i))
            \<and> (node_is_dir (node_children n ! i) = node_is_dir (node_children n ! j) \<longrightarrow>
                 lower (node_name (node_children n ! i)) \<le> lower (node_name (node_children n ! j))))"
proof -
  have s: "sorted (map node_key (node_children n))"
    using assms by (rule children_sorted_all)
  have "node_key (node_children n ! i) \<le> node_key (node_children n ! j)"
    if "j < length (node_children n)" "i < j" for i j
    using sorted_nth_mono [OF s, of i j] that by simp
  then show ?thesis
    using s by (auto simp: node_key_def)
qed

lemma mixed_tree:
  "build_tree \<lparr>config = default_config, ignore_patterns = [], include_patterns = []\<rparr> project_fs
      [''home'', ''proj''] mixed_dir 0
   = Inr (Some (TreeNode [''home'', ''proj''] ''proj'' True 0
       [TreeNode [''home'', ''proj'', ''z_dir''] ''z_dir'' True 0 [],
        TreeNode [''home'', ''proj'', ''a_file.txt''] ''a_file.txt'' False 1 [],
        TreeNode [''home'', ''proj'', ''B.txt''] ''B.txt'' False 0 []]))"
  by (simp add: build_tree_eval mixed_dir_def)

theorem children_sorted_witness:
  "build_tree \<lparr>config = default_config, ignore_patterns = [], include_patterns = []\<rparr> project_fs
      [''home'', ''proj''] mixed_dir 0
   = Inr (Some (TreeNode [''home'', ''proj''] ''proj'' True 0
       [TreeNode [''home'', ''proj'', ''z_dir''] ''z_dir'' True 0 [],
        TreeNode [''home'', ''proj'', ''a_file.txt''] ''a_file.txt'' False 1 [],
        TreeNode [''home'', ''proj'', ''B.txt''] ''B.txt'' False 0 []]))
   \<and> sorted (map node_key
       [TreeNode [''home'', ''proj'', ''z_dir''] ''z_dir'' True 0 [],
        TreeNode [''home'', ''proj'', ''a_file.txt''] ''a_file.txt'' False 1 [],
        TreeNode [''home'', ''proj'', ''B.txt''] ''B.txt'' False 0 []])"
  using children_sorted [OF mixed_tree,
          of "TreeNode [''home'', ''proj''] ''proj'' True 0
               [TreeNode [''home'', ''proj'', ''z_dir''] ''z_dir'' True 0 [],
                TreeNode [''home'', ''proj'', ''a_file.txt''] ''a_file.txt'' False 1 [],
                TreeNode [''home'', ''proj'', ''B.txt''] ''B.txt'' False 0 []]"]
        mixed_tree
  by simp

text \<open>
  C8. In every tree that \<open>build_tree\<close> returns, the filter accepted every node below the
  root: \<open>should_ignore\<close> is false for its path and its relative path. The root is never
  handed to the filter: whenever \<open>exists()\<close> holds of the root and the depth is within the
  bound, the root node is built, whatever \<open>should_ignore\<close> says of it; the one other
  outcome is that an \<open>OSError\<close> which is not a \<open>PermissionError\<close>, raised below the root,
  leaves the call.
\<close>

theorem descendants_filtered_root_not:
  "(build_tree self fs root e d = Inr (Some t) \<longrightarrow>
      (\<forall>n \<in> set (descendants t).
         \<not> should_ignore self (node_path n) (node_is_dir n)
              (relative_path_of (get_root_path fs (config self)) (node_path n))))
   \<and> (entry_exists e = Inr True \<and> (\<forall>m. max_depth (config self) = Some m \<longrightarrow> d \<le> m) \<longrightarrow>
        (\<exists>t. build_tree self fs root e d = Inr (Some t) \<and> node_path t = root
              \<and> node_name t = path_name root)
        \<or> (build_tree self fs root e d = Inl OtherOSError \<and> raises_other e))"
proof -
  have "(\<exists>t. build_tree self fs root e d = Inr (Some t)) \<or> build_tree self fs root e d = Inl OtherOSError"
    if "entry_exists e = Inr True" "\<forall>m. max_depth (config self) = Some m \<longrightarrow> d \<le> m"
  proof (cases "build_tree self fs root e d")
    case (Inl err)
    with build_tree_raises_root [of self fs root e d] that(1) os_error_cases [of err]
    show ?thesis by auto
  next
    case (Inr r)
    with that show ?thesis
      by (cases e) (auto simp: build_tree_eq split: option.splits sum.splits os_error.splits)
  qed
  then show ?thesis
    using descendants_accepted [of self fs root e d t] build_tree_fields [of self fs root e d]
      build_tree_raises_other [of self fs root e d]
    by blast
qed

lemma hidden_root_tree:
  "build_tree \<lparr>config = default_config, ignore_patterns = [''.proj''], include_patterns = []\<rparr>
      project_fs [''home'', ''.proj''] project_dir 0
   = Inr (Some (TreeNode [''home'', ''.proj''] ''.proj'' True 0
       [TreeNode [''home'', ''.proj'', ''sub''] ''sub'' True 0
         [TreeNode [''home'', ''.proj'', ''sub'', ''f.txt''] ''f.txt'' False 3 []]]))"
  by (simp add: build_tree_eval project_dir_def project_fs_def matches_pattern_eval)

theorem descendants_filtered_root_not_witness:
  "entry_exists project_dir = Inr True
   \<and> should_ignore \<lparr>config = default_config, ignore_patterns = [''.proj''], include_patterns = []\<rparr>
        [''home'', ''.proj''] True ''.proj''
   \<and> build_tree \<lparr>config = default_config, ignore_patterns = [''.proj''], include_patterns = []\<rparr>
        project_fs [''home'', ''.proj''] project_dir 0
     = Inr (Some (TreeNode [''home'', ''.proj''] ''.proj'' True 0
         [TreeNode [''home'', ''.proj'', ''sub''] ''sub'' True 0
           [TreeNode [''home'', ''.proj'', ''sub'', ''f.txt''] ''f.txt'' False 3 []]]))
   \<and> \<not> should_ignore \<lparr>config = default_config, ignore_patterns = [''.proj''], include_patterns = []\<rparr>
        [''home'', ''.proj'', ''sub'', ''f.txt''] False
        (relative_path_of [''home'', ''proj''] [''home'', ''.proj'', ''sub'', ''f.txt''])"
  using descendants_filtered_root_not
          [of "\<lparr>config = default_config, ignore_patterns = [''.proj''], include_patterns = []\<rparr>"
              project_fs "[''home'', ''.proj'']" project_dir 0
              "TreeNode [''home'', ''.proj''] ''.proj'' True 0
                [TreeNode [''home'', ''.proj'', ''sub''] ''sub'' True 0
                  [TreeNode [''home'', ''.proj'', ''sub'', ''f.txt''] ''f.txt'' False 3 []]]"]
        hidden_root_tree
  by (simp add: get_root_path_def project_fs_def)
     (simp add: project_dir_def should_ignore_def default_config_def
        path_name_def startswith_def)

text \<open>
  C9. For a fixed configuration and a fixed state of the filesystem, \<open>build_tree\<close> gives
  the same tree at every invocation: the tree is a function of the configuration, the two
  pattern sets and the filesystem, and does not depend on the order in which the pattern
  sets happen to be iterated.
\<close>

theorem build_tree_deterministic:
  assumes "config self = config self'"
    and "set (ignore_patterns self) = set (ignore_patterns self')"
    and "set (include_patterns self) = set (include_patterns self')"
  shows "build_tree self fs root e d = build_tree self' fs root e d"
  using assms by (rule build_tree_sets)

theorem build_tree_deterministic_witness:
  "set [''*.log'', ''sub''] = set [''sub'', ''*.log'']
   \<and> build_tree \<lparr>config = default_config, ignore_patterns = [''*.log'', ''sub''], include_patterns = [''f.txt'']\<rparr>
        project_fs [''home'', ''proj''] project_dir 0
     = build_tree \<lparr>config = default_config, ignore_patterns = [''sub'', ''*.log''], include_patterns = [''f.txt'']\<rparr>
        project_fs [''home'', ''proj''] project_dir 0"
  using build_tree_deterministic
          [of "\<lparr>config = default_config, ignore_patterns = [''*.log'', ''sub''], include_patterns = [''f.txt'']\<rparr>"
              "\<lparr>config = default_config, ignore_patterns = [''sub'', ''*.log''], include_patterns = [''f.txt'']\<rparr>"
              project_fs "[''home'', ''proj'']" project_dir 0]
  by (simp add: insert_commute)


section \<open>A negative depth bound\<close>




end
